theory Spec2Isabelle
  imports Complex_Main
begin

section \<open>Exceptions, classifier objects and the population state\<close>

text \<open>
  The Python exceptions that the modelled code can raise. \<open>ValueError\<close> is what
  \<^verbatim>\<open>list.remove\<close> raises for an absent element, \<open>TypeError\<close> what \<^verbatim>\<open>int(None)\<close> raises,
  \<open>ZeroDivisionError\<close> what \<^verbatim>\<open>/\<close> raises on Python numbers.
\<close>

datatype exn =
    InvalidSizeError
  | MemberNotFoundError
  | AssertionError
  | ValueError
  | TypeError
  | ZeroDivisionError

text \<open>
  Classifiers are mutable Python objects that the population holds by reference and
  whose \<open>numerosity\<close> attribute it updates in place. An object is named by a
  reference; the store maps every reference to the current attribute values. Only the
  attributes read by \<^verbatim>\<open>population.py\<close> and \<^verbatim>\<open>deletion.py\<close> are kept. The scalar
  attributes are Python numbers; they are idealised as reals (rounding is not
  modelled), the numerosity is an unbounded Python integer. The rule is opaque: the
  code only compares two rules with \<^verbatim>\<open>==\<close>, which every function below that needs it
  takes as the parameter \<open>rule_eq\<close>.
\<close>

type_synonym ref = nat

record 'r classifier =
  rule :: 'r
  numerosity :: int
  fitness :: real
  experience :: real
  action_set_size :: real

text \<open>
  The state of a \<^verbatim>\<open>Population\<close> object together with the classifier objects it can
  refer to. \<open>members\<close> is the Python list \<^verbatim>\<open>self._members\<close> (insertion order),
  \<open>num_micros\<close> and \<open>max_micros\<close> are \<^verbatim>\<open>self._num_micros\<close> and \<^verbatim>\<open>self._max_micros\<close>,
  \<open>operation_recorder\<close> is \<^verbatim>\<open>self._operation_recorder\<close>.
\<close>

record 'r population =
  store :: "ref \<Rightarrow> 'r classifier"
  members :: "ref list"
  num_micros :: int
  max_micros :: int
  operation_recorder :: "string \<Rightarrow> int"

text \<open>
  A method call returns either normally (\<open>Inr\<close>) or by raising (\<open>Inl\<close>); in both cases
  the object is left in some state, which is the second component. A raise keeps
  whatever the method had already changed, as in Python.
\<close>

type_synonym ('a, 'r) result = "(exn + 'a) \<times> 'r population"

definition and_then ::
  "('r population \<Rightarrow> (unit, 'r) result) \<Rightarrow> ('r population \<Rightarrow> ('a, 'r) result)
    \<Rightarrow> 'r population \<Rightarrow> ('a, 'r) result" where
  "and_then f g s =
     (case f s of
        (Inl e, s') \<Rightarrow> (Inl e, s')
      | (Inr _, s') \<Rightarrow> g s')"

section \<open>The parts of the collection base class that the population uses\<close>

text \<open>
  Modelled from the spec: the base class \<^verbatim>\<open>ClassifierSetBase\<close> and its decorator
  \<^verbatim>\<open>verify_membership\<close> (module \<^verbatim>\<open>classifier_set_base\<close>) are not among the source files.
  The spec describes an ordered, insertion-order collection with identity-based
  membership, so membership of a classifier is membership of its reference in the list.
\<close>

definition contains :: "'r population \<Rightarrow> ref \<Rightarrow> bool" where
  "contains s c = (c \<in> set (members s))"

text \<open>
  Modelled from the spec: \<^verbatim>\<open>macro_count()\<close> of the collection, the number of stored
  macro-classifiers.
\<close>

definition macro_count :: "'r population \<Rightarrow> nat" where
  "macro_count s = length (members s)"

text \<open>
  Modelled from the spec: the membership-verification wrapper "fails with
  \<^verbatim>\<open>MemberNotFoundError\<close> before the operation body runs if the classifier is absent".
  It is given the classifier arguments of the call; \<^verbatim>\<open>replace\<close> has two of them and
  its docstring names both.
\<close>

definition verify_membership ::
  "ref list \<Rightarrow> ('r population \<Rightarrow> (unit, 'r) result) \<Rightarrow> 'r population \<Rightarrow> (unit, 'r) result" where
  "verify_membership cs body s =
     (if list_all (contains s) cs then body s else (Inl MemberNotFoundError, s))"

text \<open>
  \<^verbatim>\<open>self._members.append(c)\<close> and \<^verbatim>\<open>self._members.remove(c)\<close> on the Python list: the
  latter deletes the first occurrence and raises \<^verbatim>\<open>ValueError\<close> when there is none.
\<close>

definition members_append :: "ref \<Rightarrow> 'r population \<Rightarrow> 'r population" where
  "members_append c s = s\<lparr>members := members s @ [c]\<rparr>"

definition members_remove :: "ref \<Rightarrow> 'r population \<Rightarrow> (unit, 'r) result" where
  "members_remove c s =
     (if c \<in> set (members s) then (Inr (), s\<lparr>members := remove1 c (members s)\<rparr>)
      else (Inl ValueError, s))"

text \<open>
  Modelled from the spec: \<^verbatim>\<open>PopulationOperationRecorder\<close> is not among the source
  files; it "accumulates named counters of micro-classifier units affected per labeled
  operation type". A label that was never recorded reads as 0.
\<close>

definition new_recorder :: "string \<Rightarrow> int" where
  "new_recorder = (\<lambda>_. 0)"

definition recorder_add :: "string \<Rightarrow> int \<Rightarrow> 'r population \<Rightarrow> 'r population" where
  "recorder_add l n s =
     s\<lparr>operation_recorder := (operation_recorder s)(l := operation_recorder s l + n)\<rparr>"

section \<open>Population: construction\<close>

text \<open>
  The values a caller may pass as \<^verbatim>\<open>max_micros\<close>, and Python's \<^verbatim>\<open>int()\<close> on them:
  an integer is kept, a float is truncated towards zero, \<^verbatim>\<open>None\<close> is a \<^verbatim>\<open>TypeError\<close>.
\<close>

datatype pyval = PyInt int | PyFloat real | PyNone

fun py_int :: "pyval \<Rightarrow> exn + int" where
  "py_int (PyInt n) = Inr n"
| "py_int (PyFloat x) = Inr (if 0 \<le> x then \<lfloor>x\<rfloor> else \<lceil>x\<rceil>)"
| "py_int PyNone = Inl TypeError"

definition validate_and_return_max_micros :: "pyval \<Rightarrow> exn + int" where
  "validate_and_return_max_micros v =
     (case py_int v of
        Inl e \<Rightarrow> Inl e
      | Inr n \<Rightarrow> if \<not> n > 0 then Inl InvalidSizeError else Inr n)"

text \<open>
  \<^verbatim>\<open>Population.__init__\<close>. The classifier objects exist outside the population, so the
  store is given to the constructor and not changed by it.
\<close>

definition Population_init :: "pyval \<Rightarrow> (ref \<Rightarrow> 'r classifier) \<Rightarrow> exn + 'r population" where
  "Population_init v st =
     (case validate_and_return_max_micros v of
        Inl e \<Rightarrow> Inl e
      | Inr mm \<Rightarrow>
          Inr \<lparr>store = st, members = [], num_micros = 0, max_micros = mm,
               operation_recorder = new_recorder\<rparr>)"

section \<open>Population: bookkeeping and atomic operations\<close>

definition inc_num_micros :: "int \<Rightarrow> 'r population \<Rightarrow> (unit, 'r) result" where
  "inc_num_micros added_numerosity s =
     (Inr (), s\<lparr>num_micros := num_micros s + added_numerosity\<rparr>)"

definition dec_num_micros :: "int \<Rightarrow> 'r population \<Rightarrow> (unit, 'r) result" where
  "dec_num_micros removed_numerosity s =
     (let s' = s\<lparr>num_micros := num_micros s - removed_numerosity\<rparr> in
      if num_micros s' \<ge> 0 then (Inr (), s') else (Inl AssertionError, s'))"

text \<open>
  The decorator \<^verbatim>\<open>record_operation\<close>: the absolute change of \<open>num_micros\<close> made by the
  atomic method is added to the recorder under the label, when a label is given.
\<close>

definition record_operation ::
  "('r population \<Rightarrow> (unit, 'r) result) \<Rightarrow> string option \<Rightarrow> 'r population \<Rightarrow> (unit, 'r) result" where
  "record_operation atomic_method operation_label s =
     (let micros_before = num_micros s in
      case atomic_method s of
        (Inl e, s') \<Rightarrow> (Inl e, s')
      | (Inr _, s') \<Rightarrow>
          (let micros_after = num_micros s';
               micros_delta = micros_after - micros_before;
               num_micros_altered = \<bar>micros_delta\<bar>
           in case operation_label of
                None \<Rightarrow> (Inr (), s')
              | Some l \<Rightarrow> (Inr (), recorder_add l num_micros_altered s')))"

definition set_numerosity :: "ref \<Rightarrow> int \<Rightarrow> 'r population \<Rightarrow> 'r population" where
  "set_numerosity c n s = s\<lparr>store := (store s)(c := (store s c)\<lparr>numerosity := n\<rparr>)\<rparr>"

definition atomic_add_new :: "ref \<Rightarrow> string option \<Rightarrow> 'r population \<Rightarrow> (unit, 'r) result" where
  "atomic_add_new new_classifier operation_label =
     record_operation
       (\<lambda>s. inc_num_micros (numerosity (store s new_classifier))
               (members_append new_classifier s))
       operation_label"

definition atomic_copy_existing ::
  "ref \<Rightarrow> int \<Rightarrow> string option \<Rightarrow> 'r population \<Rightarrow> (unit, 'r) result" where
  "atomic_copy_existing existing_classifier num_copies operation_label =
     record_operation
       (\<lambda>s. if \<not> num_copies \<ge> 1 then (Inl AssertionError, s)
             else inc_num_micros num_copies
                    (set_numerosity existing_classifier
                       (numerosity (store s existing_classifier) + num_copies) s))
       operation_label"

definition atomic_remove_whole :: "ref \<Rightarrow> string option \<Rightarrow> 'r population \<Rightarrow> (unit, 'r) result" where
  "atomic_remove_whole c operation_label =
     record_operation
       (and_then (members_remove c) (\<lambda>s. dec_num_micros (numerosity (store s c)) s))
       operation_label"

definition atomic_remove_single_copy ::
  "ref \<Rightarrow> string option \<Rightarrow> 'r population \<Rightarrow> (unit, 'r) result" where
  "atomic_remove_single_copy existing_classifier operation_label =
     record_operation
       (and_then
          (\<lambda>s. if numerosity (store s existing_classifier) > 1
                then (Inr (), set_numerosity existing_classifier
                                (numerosity (store s existing_classifier) - 1) s)
                else members_remove existing_classifier s)
          (dec_num_micros 1))
       operation_label"

section \<open>Population: public operations\<close>

definition add :: "ref \<Rightarrow> string option \<Rightarrow> 'r population \<Rightarrow> (unit, 'r) result" where
  "add c operation_label = atomic_add_new c operation_label"

definition absorb :: "ref \<Rightarrow> ref \<Rightarrow> 'r population \<Rightarrow> (unit, 'r) result" where
  "absorb absorbee absorber s =
     (let num_absorber_copies = numerosity (store s absorbee) in
      atomic_copy_existing absorber num_absorber_copies (Some ''absorption'') s)"

text \<open>
  The loop of \<^verbatim>\<open>_try_to_absorb\<close> over the members still to be visited: the first member
  whose rule equals the classifier's absorbs it and ends the loop with \<^verbatim>\<open>True\<close>.
\<close>

fun try_to_absorb_loop ::
  "('r \<Rightarrow> 'r \<Rightarrow> bool) \<Rightarrow> ref list \<Rightarrow> ref \<Rightarrow> 'r population \<Rightarrow> (bool, 'r) result" where
  "try_to_absorb_loop rule_eq [] c s = (Inr False, s)"
| "try_to_absorb_loop rule_eq (member # rest) c s =
     (if rule_eq (rule (store s member)) (rule (store s c))
      then (case absorb c member s of
              (Inl e, s') \<Rightarrow> (Inl e, s')
            | (Inr _, s') \<Rightarrow> (Inr True, s'))
      else try_to_absorb_loop rule_eq rest c s)"

definition try_to_absorb ::
  "('r \<Rightarrow> 'r \<Rightarrow> bool) \<Rightarrow> ref \<Rightarrow> 'r population \<Rightarrow> (bool, 'r) result" where
  "try_to_absorb rule_eq c s = try_to_absorb_loop rule_eq (members s) c s"

definition insert_classifier ::
  "('r \<Rightarrow> 'r \<Rightarrow> bool) \<Rightarrow> ref \<Rightarrow> string option \<Rightarrow> 'r population \<Rightarrow> (unit, 'r) result" where
  "insert_classifier rule_eq c operation_label s =
     (case try_to_absorb rule_eq c s of
        (Inl e, s') \<Rightarrow> (Inl e, s')
      | (Inr was_absorbed, s') \<Rightarrow>
          if \<not> was_absorbed then atomic_add_new c operation_label s' else (Inr (), s'))"

definition duplicate ::
  "ref \<Rightarrow> int \<Rightarrow> string option \<Rightarrow> 'r population \<Rightarrow> (unit, 'r) result" where
  "duplicate c num_copies operation_label =
     verify_membership [c]
       (\<lambda>s. if \<not> num_copies \<ge> 1 then (Inl AssertionError, s)
             else atomic_copy_existing c num_copies operation_label s)"

definition replace ::
  "ref \<Rightarrow> ref \<Rightarrow> string option \<Rightarrow> 'r population \<Rightarrow> (unit, 'r) result" where
  "replace replacee replacer operation_label =
     verify_membership [replacee, replacer]
       (\<lambda>s. let num_replacer_copies = numerosity (store s replacee) in
             and_then (atomic_remove_whole replacee None)
               (atomic_copy_existing replacer num_replacer_copies operation_label) s)"

definition delete :: "ref \<Rightarrow> 'r population \<Rightarrow> (unit, 'r) result" where
  "delete c = verify_membership [c] (atomic_remove_single_copy c (Some ''deletion''))"

definition remove :: "ref \<Rightarrow> string option \<Rightarrow> 'r population \<Rightarrow> (unit, 'r) result" where
  "remove c operation_label = verify_membership [c] (atomic_remove_whole c operation_label)"

section \<open>Sequences of population operations\<close>

text \<open>
  One call of a public mutating method, with its arguments (the optional operation
  label last), and the execution of a sequence of calls that ends at the first raise.
\<close>

datatype op =
    Add ref "string option"
  | Insert ref "string option"
  | Duplicate ref int "string option"
  | Replace ref ref "string option"
  | Delete ref
  | Remove ref "string option"

fun apply_op :: "('r \<Rightarrow> 'r \<Rightarrow> bool) \<Rightarrow> op \<Rightarrow> 'r population \<Rightarrow> (unit, 'r) result" where
  "apply_op rule_eq (Add c l) s = add c l s"
| "apply_op rule_eq (Insert c l) s = insert_classifier rule_eq c l s"
| "apply_op rule_eq (Duplicate c n l) s = duplicate c n l s"
| "apply_op rule_eq (Replace a b l) s = replace a b l s"
| "apply_op rule_eq (Delete c) s = delete c s"
| "apply_op rule_eq (Remove c l) s = remove c l s"

fun run_ops :: "('r \<Rightarrow> 'r \<Rightarrow> bool) \<Rightarrow> op list \<Rightarrow> 'r population \<Rightarrow> (unit, 'r) result" where
  "run_ops rule_eq [] s = (Inr (), s)"
| "run_ops rule_eq (x # xs) s =
     (case apply_op rule_eq x s of
        (Inl e, s') \<Rightarrow> (Inl e, s')
      | (Inr _, s') \<Rightarrow> run_ops rule_eq xs s')"

text \<open>
  The preconditions as the documentation states them: the classifier arguments of
  \<^verbatim>\<open>duplicate\<close>, \<^verbatim>\<open>replace\<close>, \<^verbatim>\<open>delete\<close> and \<^verbatim>\<open>remove\<close> are members and the number of
  copies of \<^verbatim>\<open>duplicate\<close> is at least 1.
\<close>

fun stated_precondition :: "op \<Rightarrow> 'r population \<Rightarrow> bool" where
  "stated_precondition (Add c l) s = True"
| "stated_precondition (Insert c l) s = True"
| "stated_precondition (Duplicate c n l) s = (contains s c \<and> n \<ge> 1)"
| "stated_precondition (Replace a b l) s = (contains s a \<and> contains s b)"
| "stated_precondition (Delete c) s = contains s c"
| "stated_precondition (Remove c l) s = contains s c"

text \<open>
  The stricter preconditions under which the bookkeeping is exact: in addition, an
  object handed to \<^verbatim>\<open>add\<close> or \<^verbatim>\<open>insert\<close> is not yet a member and stands for at least
  one micro-classifier, and the two arguments of \<^verbatim>\<open>replace\<close> are different objects.
\<close>

fun strict_precondition :: "op \<Rightarrow> 'r population \<Rightarrow> bool" where
  "strict_precondition (Add c l) s = (\<not> contains s c \<and> numerosity (store s c) \<ge> 1)"
| "strict_precondition (Insert c l) s = (\<not> contains s c \<and> numerosity (store s c) \<ge> 1)"
| "strict_precondition (Replace a b l) s = (contains s a \<and> contains s b \<and> a \<noteq> b)"
| "strict_precondition x s = stated_precondition x s"

text \<open>
  Every call of the sequence is made in a state in which its precondition holds.
\<close>

fun preconditions_hold ::
  "(op \<Rightarrow> 'r population \<Rightarrow> bool) \<Rightarrow> ('r \<Rightarrow> 'r \<Rightarrow> bool) \<Rightarrow> op list \<Rightarrow> 'r population \<Rightarrow> bool" where
  "preconditions_hold pre rule_eq [] s = True"
| "preconditions_hold pre rule_eq (x # xs) s =
     (pre x s \<and> preconditions_hold pre rule_eq xs (snd (apply_op rule_eq x s)))"

section \<open>Deletion strategies\<close>

text \<open>
  The hyperparameters that \<^verbatim>\<open>deletion.py\<close> looks up by name. The lookup function
  \<^verbatim>\<open>get_hyperparam\<close> is not among the source files; its two results are fields here.
\<close>

record hyperparams =
  theta_del :: real
  delta :: real

text \<open>
  \<^verbatim>\<open>_calc_deletion_vote\<close>. Both divisions raise \<^verbatim>\<open>ZeroDivisionError\<close> on a zero divisor,
  as Python numbers do.
\<close>

definition calc_deletion_vote :: "hyperparams \<Rightarrow> 'r classifier \<Rightarrow> real \<Rightarrow> exn + real" where
  "calc_deletion_vote hp classifier mean_fitness_in_pop =
     (let vote = action_set_size classifier * of_int (numerosity classifier) in
      if numerosity classifier = 0 then Inl ZeroDivisionError
      else
        let fitness_numerosity_ratio = fitness classifier / of_int (numerosity classifier);
            has_sufficient_experience = experience classifier > theta_del hp;
            has_low_fitness = fitness_numerosity_ratio < delta hp * mean_fitness_in_pop
        in if has_sufficient_experience \<and> has_low_fitness
           then (if fitness_numerosity_ratio = 0 then Inl ZeroDivisionError
                 else Inr (vote * (mean_fitness_in_pop / fitness_numerosity_ratio)))
           else Inr vote)"

text \<open>
  The list comprehension that computes the vote of every member, in iteration order; it
  raises as soon as one vote does.
\<close>

fun calc_votes :: "hyperparams \<Rightarrow> real \<Rightarrow> 'r classifier list \<Rightarrow> exn + real list" where
  "calc_votes hp mean_fitness_in_pop [] = Inr []"
| "calc_votes hp mean_fitness_in_pop (c # cs) =
     (case calc_deletion_vote hp c mean_fitness_in_pop of
        Inl e \<Rightarrow> Inl e
      | Inr v \<Rightarrow>
          (case calc_votes hp mean_fitness_in_pop cs of
             Inl e \<Rightarrow> Inl e
           | Inr vs \<Rightarrow> Inr (v # vs)))"

text \<open>
  The second loop of \<^verbatim>\<open>_select_for_deletion\<close>: the running sum starts at \<open>vote_sum\<close>,
  and the first classifier whose running sum exceeds the choice point is returned. When
  the loop ends without a return the Python function returns \<^verbatim>\<open>None\<close>.
\<close>

fun roulette_scan :: "real \<Rightarrow> real \<Rightarrow> (ref \<times> real) list \<Rightarrow> ref option" where
  "roulette_scan choice_point vote_sum [] = None"
| "roulette_scan choice_point vote_sum ((classifier, vote) # rest) =
     (let vote_sum' = vote_sum + vote in
      if vote_sum' > choice_point then Some classifier
      else roulette_scan choice_point vote_sum' rest)"

text \<open>
  \<^verbatim>\<open>XCSRouletteWheelDeletion._select_for_deletion\<close>. The statistics function
  \<^verbatim>\<open>calc_summary_stat\<close> is not among the source files: \<open>stat\<close> stands for
  \<^verbatim>\<open>calc_summary_stat(population, "mean", "fitness")\<close> and is given the members' objects in
  iteration order. \<open>rand\<close> is the value that \<^verbatim>\<open>get_rng().rand()\<close> returns in this call.
\<close>

definition select_for_deletion ::
  "('r classifier list \<Rightarrow> exn + real) \<Rightarrow> hyperparams \<Rightarrow> real \<Rightarrow> 'r population
    \<Rightarrow> exn + ref option" where
  "select_for_deletion stat hp rand s =
     (case stat (map (store s) (members s)) of
        Inl e \<Rightarrow> Inl e
      | Inr mean_fitness_in_pop \<Rightarrow>
          (case calc_votes hp mean_fitness_in_pop (map (store s) (members s)) of
             Inl e \<Rightarrow> Inl e
           | Inr votes \<Rightarrow>
               (let vote_sum = sum_list votes;
                    choice_point = rand * vote_sum
                in Inr (roulette_scan choice_point 0 (zip (members s) votes)))))"

text \<open>
  Modelled from the spec: \<^verbatim>\<open>calc_summary_stat\<close> (module \<^verbatim>\<open>classifier_set_stats\<close>) is
  missing; the spec calls its result "the population-wide mean of \<open>fitness\<close> across
  current macro-classifiers". The spec is silent on the empty population; the division
  by the member count is taken to raise there.
\<close>

definition mean_fitness :: "'r classifier list \<Rightarrow> exn + real" where
  "mean_fitness cs =
     (if cs = [] then Inl ZeroDivisionError
      else Inr (sum_list (map fitness cs) / of_nat (length cs)))"

text \<open>
  A deletion strategy is its method \<^verbatim>\<open>_select_for_deletion\<close>: from its own state
  (for the roulette wheel, the position in the sequence of random draws) and the
  population it returns a classifier, \<^verbatim>\<open>None\<close>, or raises.
\<close>

type_synonym ('g, 'r) strategy = "'g \<Rightarrow> 'r population \<Rightarrow> (exn + ref option) \<times> 'g"

definition roulette_wheel ::
  "('r classifier list \<Rightarrow> exn + real) \<Rightarrow> hyperparams \<Rightarrow> (nat \<Rightarrow> real) \<Rightarrow> (nat, 'r) strategy" where
  "roulette_wheel stat hp rng k s = (select_for_deletion stat hp (rng k) s, Suc k)"

text \<open>
  \<^verbatim>\<open>population.delete(classifier_to_delete)\<close> on what the strategy returned. \<^verbatim>\<open>None\<close> is
  not a member of any population, so the membership verification raises for it.
\<close>

definition delete_selected :: "ref option \<Rightarrow> 'r population \<Rightarrow> (unit, 'r) result" where
  "delete_selected classifier_to_delete s =
     (case classifier_to_delete of
        None \<Rightarrow> (Inl MemberNotFoundError, s)
      | Some c \<Rightarrow> delete c s)"

text \<open>
  The loop \<^verbatim>\<open>for _ in range(num_deletions)\<close> of \<^verbatim>\<open>_perform_deletions\<close>, the method
  itself and \<^verbatim>\<open>DeletionStrategyABC.__call__\<close>.
\<close>

fun deletion_rounds ::
  "('g, 'r) strategy \<Rightarrow> nat \<Rightarrow> 'g \<Rightarrow> 'r population \<Rightarrow> (unit, 'r) result \<times> 'g" where
  "deletion_rounds sel 0 g s = ((Inr (), s), g)"
| "deletion_rounds sel (Suc n) g s =
     (case sel g s of
        (Inl e, g') \<Rightarrow> ((Inl e, s), g')
      | (Inr classifier_to_delete, g') \<Rightarrow>
          (case delete_selected classifier_to_delete s of
             (Inl e, s') \<Rightarrow> ((Inl e, s'), g')
           | (Inr _, s') \<Rightarrow> deletion_rounds sel n g' s'))"

definition perform_deletions ::
  "('g, 'r) strategy \<Rightarrow> 'g \<Rightarrow> 'r population \<Rightarrow> (unit, 'r) result \<times> 'g" where
  "perform_deletions sel g s =
     (let num_deletions = num_micros s - max_micros s in
      if \<not> num_deletions \<ge> 1 then ((Inl AssertionError, s), g)
      else deletion_rounds sel (nat num_deletions) g s)"

definition deletion_strategy_call ::
  "('g, 'r) strategy \<Rightarrow> 'g \<Rightarrow> 'r population \<Rightarrow> (unit, 'r) result \<times> 'g" where
  "deletion_strategy_call sel g s =
     (let deletion_is_required = num_micros s > max_micros s in
      case (if deletion_is_required then perform_deletions sel g s else ((Inr (), s), g)) of
        ((Inl e, s'), g') \<Rightarrow> ((Inl e, s'), g')
      | ((Inr _, s'), g') \<Rightarrow>
          if num_micros s' \<le> max_micros s' then ((Inr (), s'), g')
          else ((Inl AssertionError, s'), g'))"

text \<open>
  Every one of the next \<open>n\<close> rounds selects a classifier that is a member at that time.
\<close>

fun selections_are_members ::
  "('g, 'r) strategy \<Rightarrow> nat \<Rightarrow> 'g \<Rightarrow> 'r population \<Rightarrow> bool" where
  "selections_are_members sel 0 g s = True"
| "selections_are_members sel (Suc n) g s =
     (case sel g s of
        (Inr (Some c), g') \<Rightarrow>
          c \<in> set (members s) \<and> selections_are_members sel n g' (snd (delete c s))
      | _ \<Rightarrow> False)"

text \<open>
  A classifier whose deletion vote is certainly positive: it stands for at least one
  micro-classifier and has a positive action set size and a positive fitness.
\<close>

definition votable :: "'r classifier \<Rightarrow> bool" where
  "votable c \<longleftrightarrow> numerosity c \<ge> 1 \<and> action_set_size c > 0 \<and> fitness c > 0"

section \<open>Invariants of the data model\<close>

text \<open>
  The number of micro-classifiers that the members stand for, and the invariants that
  the data model asks of a population: the members are distinct objects, each stands
  for at least one micro-classifier, and the cached \<open>num_micros\<close> is their total.
\<close>

definition sum_numerosity :: "'r population \<Rightarrow> int" where
  "sum_numerosity s = sum_list (map (\<lambda>c. numerosity (store s c)) (members s))"

definition population_invariant :: "'r population \<Rightarrow> bool" where
  "population_invariant s \<longleftrightarrow>
     distinct (members s) \<and>
     list_all (\<lambda>c. numerosity (store s c) \<ge> 1) (members s) \<and>
     num_micros s = sum_numerosity s"

definition is_positive_integer :: "pyval \<Rightarrow> bool" where
  "is_positive_integer v = (case v of PyInt n \<Rightarrow> n > 0 | _ \<Rightarrow> False)"

text \<open>
  Concrete objects for the examples: the rule of object \<open>r\<close> is \<open>r mod 3\<close>, so objects 1,
  4 and 7 carry the same rule; object 0 stands for one micro-classifier, every other
  object for two.
\<close>

definition example_store :: "ref \<Rightarrow> nat classifier" where
  "example_store r =
     \<lparr>rule = r mod 3, numerosity = (if r = 0 then 1 else 2), fitness = 1,
      experience = 0, action_set_size = 1\<rparr>"

definition example_population :: "nat population" where
  "example_population =
     \<lparr>store = example_store, members = [0, 2], num_micros = 3, max_micros = 5,
      operation_recorder = new_recorder\<rparr>"

definition fresh_example :: "nat population" where
  "fresh_example =
     \<lparr>store = example_store, members = [], num_micros = 0, max_micros = 5,
      operation_recorder = new_recorder\<rparr>"

definition crowded_population :: "nat population" where
  "crowded_population =
     \<lparr>store = example_store, members = [0, 1, 4, 2], num_micros = 7, max_micros = 5,
      operation_recorder = new_recorder\<rparr>"

text \<open>
  A population whose only member has \<open>action_set_size = 0\<close>, so that its deletion vote
  is 0; it holds two micro-classifiers and has room for one. The hyperparameters are
  those of the shipped experiments; \<open>generous_hyperparams\<close> has a tolerance factor above
  1, and \<open>weak_classifier\<close> is an experienced classifier with fitness 2.
\<close>

definition zero_vote_store :: "ref \<Rightarrow> nat classifier" where
  "zero_vote_store r =
     \<lparr>rule = r, numerosity = 2, fitness = 1, experience = 0, action_set_size = 0\<rparr>"

definition zero_vote_population :: "nat population" where
  "zero_vote_population =
     \<lparr>store = zero_vote_store, members = [0], num_micros = 2, max_micros = 1,
      operation_recorder = new_recorder\<rparr>"

definition example_hyperparams :: hyperparams where
  "example_hyperparams = \<lparr>theta_del = 20, delta = 1/10\<rparr>"




section \<open>Auxiliary facts\<close>

lemmas atomic_defs =
  and_then_def verify_membership_def contains_def members_append_def members_remove_def
  recorder_add_def inc_num_micros_def dec_num_micros_def record_operation_def
  set_numerosity_def atomic_add_new_def atomic_copy_existing_def atomic_remove_whole_def
  atomic_remove_single_copy_def

lemmas example_defs =
  example_population_def example_store_def population_invariant_def sum_numerosity_def
  new_recorder_def

lemma member_le_sum:
  "c \<in> set xs \<Longrightarrow> list_all (\<lambda>c. f c \<ge> (1::int)) xs \<Longrightarrow> f c \<le> sum_list (map f xs)"
proof (induction xs)
  case Nil then show ?case by simp
next
  case (Cons a xs)
  have nn: "list_all (\<lambda>c. f c \<ge> 1) ys \<Longrightarrow> 0 \<le> sum_list (map f ys)" for ys
    by (induction ys) auto
  from Cons show ?case using nn[of xs] by auto
qed

lemma sum_same_notin:
  "c \<notin> set xs \<Longrightarrow> (\<And>d. d \<noteq> c \<Longrightarrow> g d = f d) \<Longrightarrow>
   sum_list (map g xs) = (sum_list (map f xs) :: int)"
  by (induction xs) auto

lemma sum_change_one:
  "c \<in> set xs \<Longrightarrow> distinct xs \<Longrightarrow> (\<And>d. d \<noteq> c \<Longrightarrow> g d = f d) \<Longrightarrow>
   sum_list (map g xs) = (sum_list (map f xs) :: int) - f c + g c"
proof (induction xs)
  case Nil then show ?case by simp
next
  case (Cons a xs)
  show ?case
  proof (cases "a = c")
    case True
    with Cons.prems have "c \<notin> set xs" by simp
    from sum_same_notin[OF this, of g f] Cons.prems(3) True show ?thesis by simp
  next
    case False
    with Cons show ?thesis by auto
  qed
qed

lemma sum_numerosity_change_one:
  "c \<in> set (members s) \<Longrightarrow> distinct (members s) \<Longrightarrow>
   sum_list (map (\<lambda>d. numerosity (if d = c then v else store s d)) (members s))
     = sum_numerosity s - numerosity (store s c) + numerosity v"
  unfolding sum_numerosity_def
  using sum_change_one[of c "members s" "\<lambda>d. numerosity (if d = c then v else store s d)"
      "\<lambda>d. numerosity (store s d)"]
  by simp

section \<open>Construction\<close>

text \<open>
  C8, as stated, fails: the value 2.5 is not a positive integer, yet the constructor
  does not raise; \<^verbatim>\<open>int()\<close> truncates it and the population is built with capacity 2,
  which is not the supplied value.
\<close>

theorem Population_init_accepts_float:
  "\<not> is_positive_integer (PyFloat (5/2)) \<and>
   Population_init (PyFloat (5/2)) example_store
     = Inr \<lparr>store = example_store, members = [], num_micros = 0, max_micros = 2,
            operation_recorder = new_recorder\<rparr>"
  by (simp add: is_positive_integer_def Population_init_def validate_and_return_max_micros_def)

text \<open>
  C8, amended: for an integer \<open>n\<close> the constructor raises \<^verbatim>\<open>InvalidSizeError\<close> exactly
  when \<open>n\<close> is not positive, and otherwise builds a population with \<open>num_micros = 0\<close> and
  \<open>max_micros = n\<close>. For any value \<open>v\<close> the test is made on \<^verbatim>\<open>int(v)\<close>: the constructor
  raises \<^verbatim>\<open>InvalidSizeError\<close> exactly when \<^verbatim>\<open>int(v)\<close> exists and is not positive, and a
  population that is built has \<open>num_micros = 0\<close> and the positive capacity \<^verbatim>\<open>int(v)\<close>.
\<close>

theorem Population_init_validates:
  "(Population_init (PyInt n) st = Inl InvalidSizeError \<longleftrightarrow> \<not> n > 0) \<and>
   (n > 0 \<longrightarrow>
      (\<exists>s. Population_init (PyInt n) st = Inr s \<and> num_micros s = 0 \<and> max_micros s = n)) \<and>
   (Population_init v st = Inl InvalidSizeError \<longleftrightarrow> (\<exists>k. py_int v = Inr k \<and> \<not> k > 0)) \<and>
   (\<forall>s. Population_init v st = Inr s \<longrightarrow>
        num_micros s = 0 \<and> py_int v = Inr (max_micros s) \<and> max_micros s > 0)"
  by (cases v)
     (auto simp: Population_init_def validate_and_return_max_micros_def
           split: sum.splits if_splits)

theorem Population_init_validates_witness:
  "(5::int) > 0 \<and>
   (\<exists>s. Population_init (PyInt 5) example_store = Inr s \<and> num_micros s = 0 \<and> max_micros s = 5) \<and>
   Population_init (PyInt 0) example_store = Inl InvalidSizeError"
  using Population_init_validates [of 5 example_store "PyInt 0"]
        Population_init_validates [of 0 example_store "PyInt 0"]
  by simp

section \<open>Membership verification\<close>

text \<open>
  C9: for a classifier \<open>c\<close> that is not a member, \<^verbatim>\<open>duplicate\<close>, \<^verbatim>\<open>delete\<close>, \<^verbatim>\<open>remove\<close>
  and \<^verbatim>\<open>replace\<close> with \<open>c\<close> as replacee or as replacer raise \<^verbatim>\<open>MemberNotFoundError\<close> and
  leave the whole state (members, \<open>num_micros\<close>, recorder, classifier objects) as it was.
\<close>

theorem absent_member_raises:
  "c \<notin> set (members s) \<Longrightarrow>
     duplicate c n l s = (Inl MemberNotFoundError, s) \<and>
     delete c s = (Inl MemberNotFoundError, s) \<and>
     remove c l s = (Inl MemberNotFoundError, s) \<and>
     replace c b l s = (Inl MemberNotFoundError, s) \<and>
     replace a c l s = (Inl MemberNotFoundError, s)"
  by (simp add: duplicate_def delete_def remove_def replace_def verify_membership_def
        contains_def)

theorem absent_member_raises_witness:
  "1 \<notin> set (members example_population) \<and>
   delete 1 example_population = (Inl MemberNotFoundError, example_population) \<and>
   replace 0 1 None example_population = (Inl MemberNotFoundError, example_population)"
proof -
  have h: "1 \<notin> set (members example_population)"
    by (simp add: example_population_def)
  from absent_member_raises [OF h, of 1 None 0 0] h show ?thesis by simp
qed

section \<open>Deleting one micro-classifier\<close>

text \<open>
  C5: in a population that satisfies the invariants of the data model, \<^verbatim>\<open>delete(c)\<close> for
  a member \<open>c\<close> returns normally, lowers \<open>num_micros\<close> by 1 and adds 1 under the label
  "deletion"; no other classifier object is touched. If \<open>c\<close> stood for more than one
  micro-classifier its numerosity drops by 1 and the members (hence the macro count)
  stay; if it stood for exactly one, \<open>c\<close> is gone from the members and the macro count
  drops by 1. The invariants hold again afterwards.
\<close>

theorem delete_removes_one_copy:
  assumes inv: "population_invariant s" and mem: "c \<in> set (members s)"
  shows "\<exists>s'. delete c s = (Inr (), s') \<and>
           num_micros s' = num_micros s - 1 \<and>
           operation_recorder s' =
             (operation_recorder s)(''deletion'' := operation_recorder s ''deletion'' + 1) \<and>
           (\<forall>d. d \<noteq> c \<longrightarrow> store s' d = store s d) \<and>
           (numerosity (store s c) > 1 \<longrightarrow>
              numerosity (store s' c) = numerosity (store s c) - 1 \<and>
              members s' = members s \<and> macro_count s' = macro_count s) \<and>
           (numerosity (store s c) = 1 \<longrightarrow>
              c \<notin> set (members s') \<and> macro_count s' + 1 = macro_count s \<and>
              members s' = remove1 c (members s)) \<and>
           population_invariant s'"
proof -
  from inv have d: "distinct (members s)"
    and pos: "list_all (\<lambda>c. numerosity (store s c) \<ge> 1) (members s)"
    and nm: "num_micros s = sum_list (map (\<lambda>c. numerosity (store s c)) (members s))"
    by (simp_all add: population_invariant_def sum_numerosity_def)
  from member_le_sum[OF mem pos] nm have le: "numerosity (store s c) \<le> num_micros s" by simp
  from pos mem have c1: "numerosity (store s c) \<ge> 1" by (simp add: list_all_iff)
  show ?thesis
  proof (cases "numerosity (store s c) > 1")
    case True
    with mem le d pos nm show ?thesis
      using sum_numerosity_change_one[OF mem d,
          of "store s c\<lparr>numerosity := numerosity (store s c) - 1\<rparr>"]
      by (auto simp: delete_def atomic_defs macro_count_def population_invariant_def
            sum_numerosity_def list_all_iff fun_eq_iff)
  next
    case False
    with c1 have e: "numerosity (store s c) = 1" by simp
    have len: "length (remove1 c (members s)) + 1 = length (members s)"
      using mem by (simp add: length_remove1) (cases "members s", auto)
    from e mem le d pos nm len show ?thesis
      using sum_list_map_remove1[OF mem, of "\<lambda>c. numerosity (store s c)"]
      by (auto simp: delete_def atomic_defs macro_count_def population_invariant_def
            sum_numerosity_def list_all_iff fun_eq_iff)
  qed
qed

theorem delete_removes_one_copy_witness:
  "population_invariant example_population \<and> 0 \<in> set (members example_population) \<and>
   numerosity (store example_population 0) = 1 \<and>
   (\<exists>s'. delete 0 example_population = (Inr (), s') \<and> num_micros s' = 2 \<and>
         members s' = [2] \<and> operation_recorder s' ''deletion'' = 1)"
proof -
  have inv: "population_invariant example_population" by (simp add: example_defs)
  have mem: "0 \<in> set (members example_population)" by (simp add: example_defs)
  from delete_removes_one_copy [OF inv mem] inv mem show ?thesis
    by (auto simp: example_population_def example_store_def new_recorder_def)
qed

section \<open>Inserting a classifier\<close>

lemma absorb_ok:
  "numerosity (store s c) \<ge> 1 \<Longrightarrow>
   absorb c m s =
     (Inr (), s\<lparr>store := (store s)(m := (store s m)\<lparr>numerosity := numerosity (store s m) + numerosity (store s c)\<rparr>),
               num_micros := num_micros s + numerosity (store s c),
               operation_recorder := (operation_recorder s)(''absorption'' := operation_recorder s ''absorption'' + numerosity (store s c))\<rparr>)"
  by (simp add: absorb_def atomic_defs Let_def)

lemma try_to_absorb_loop_first:
  "\<forall>x\<in>set pre. \<not> rule_eq (rule (store s x)) (rule (store s c)) \<Longrightarrow>
   rule_eq (rule (store s m)) (rule (store s c)) \<Longrightarrow>
   try_to_absorb_loop rule_eq (pre @ m # post) c s =
     (case absorb c m s of (Inl e, s') \<Rightarrow> (Inl e, s') | (Inr _, s') \<Rightarrow> (Inr True, s'))"
  by (induction pre) simp_all

lemma try_to_absorb_loop_none:
  "\<forall>x\<in>set xs. \<not> rule_eq (rule (store s x)) (rule (store s c)) \<Longrightarrow>
   try_to_absorb_loop rule_eq xs c s = (Inr False, s)"
  by (induction xs) simp_all

text \<open>
  C3: if some member's rule equals the rule of \<open>c\<close> (and \<open>c\<close> stands for at least one
  micro-classifier, as every classifier of the data model does), \<^verbatim>\<open>insert(c)\<close> returns
  normally, leaves the macro count as it was, raises the numerosity of such a member by
  the numerosity of \<open>c\<close>, raises \<open>num_micros\<close> by the same amount and adds that amount
  under the label "absorption". If no member's rule equals the rule of \<open>c\<close>,
  \<^verbatim>\<open>insert(c)\<close> is \<^verbatim>\<open>add(c)\<close>, which returns normally, raises the macro count by 1 and
  \<open>num_micros\<close> by the numerosity of \<open>c\<close>.
\<close>

theorem insert_absorbs_or_adds:
  "((\<exists>m\<in>set (members s). rule_eq (rule (store s m)) (rule (store s c))) \<longrightarrow>
      numerosity (store s c) \<ge> 1 \<longrightarrow>
      (\<exists>s' m. m \<in> set (members s) \<and> rule_eq (rule (store s m)) (rule (store s c)) \<and>
         insert_classifier rule_eq c l s = (Inr (), s') \<and>
         macro_count s' = macro_count s \<and>
         numerosity (store s' m) = numerosity (store s m) + numerosity (store s c) \<and>
         num_micros s' = num_micros s + numerosity (store s c) \<and>
         operation_recorder s' =
           (operation_recorder s)(''absorption'' :=
              operation_recorder s ''absorption'' + numerosity (store s c)))) \<and>
   (\<not> (\<exists>m\<in>set (members s). rule_eq (rule (store s m)) (rule (store s c))) \<longrightarrow>
      insert_classifier rule_eq c l s = add c l s \<and>
      fst (add c l s) = Inr () \<and>
      macro_count (snd (add c l s)) = macro_count s + 1 \<and>
      num_micros (snd (add c l s)) = num_micros s + numerosity (store s c))"
proof (intro conjI impI)
  assume ex: "\<exists>m\<in>set (members s). rule_eq (rule (store s m)) (rule (store s c))"
    and pos: "numerosity (store s c) \<ge> 1"
  from split_list_first_prop[OF ex] obtain pre m post where
    sp: "members s = pre @ m # post" and hit: "rule_eq (rule (store s m)) (rule (store s c))"
    and pre: "\<forall>x\<in>set pre. \<not> rule_eq (rule (store s x)) (rule (store s c))"
    by blast
  from sp have mem: "m \<in> set (members s)" by simp
  have "insert_classifier rule_eq c l s = (Inr (), snd (absorb c m s))"
    using try_to_absorb_loop_first[where rule_eq=rule_eq and s=s and c=c and m=m and pre=pre and post=post] pre hit sp
    by (simp add: insert_classifier_def try_to_absorb_def absorb_ok[OF pos])
  with mem hit show "\<exists>s' m. m \<in> set (members s) \<and> rule_eq (rule (store s m)) (rule (store s c)) \<and>
         insert_classifier rule_eq c l s = (Inr (), s') \<and>
         macro_count s' = macro_count s \<and>
         numerosity (store s' m) = numerosity (store s m) + numerosity (store s c) \<and>
         num_micros s' = num_micros s + numerosity (store s c) \<and>
         operation_recorder s' =
           (operation_recorder s)(''absorption'' :=
              operation_recorder s ''absorption'' + numerosity (store s c))"
    by (intro exI[of _ "snd (absorb c m s)"] exI[of _ m])
       (simp add: absorb_ok[OF pos] macro_count_def)
next
  assume no: "\<not> (\<exists>m\<in>set (members s). rule_eq (rule (store s m)) (rule (store s c)))"
  then have "\<forall>x\<in>set (members s). \<not> rule_eq (rule (store s x)) (rule (store s c))" by blast
  from try_to_absorb_loop_none[where rule_eq=rule_eq and s=s and c=c and xs="members s"] this
  show "insert_classifier rule_eq c l s = add c l s"
    by (simp add: insert_classifier_def try_to_absorb_def add_def)
next
  show "fst (add c l s) = Inr ()"
    by (cases l) (simp_all add: add_def atomic_defs)
next
  show "macro_count (snd (add c l s)) = macro_count s + 1"
    by (cases l) (simp_all add: add_def atomic_defs macro_count_def)
next
  show "num_micros (snd (add c l s)) = num_micros s + numerosity (store s c)"
    by (cases l) (simp_all add: add_def atomic_defs)
qed

theorem insert_absorbs_or_adds_witness:
  "(\<exists>m\<in>set (members example_population).
      rule (store example_population m) = rule (store example_population 3)) \<and>
   numerosity (store example_population 3) \<ge> 1 \<and>
   (\<exists>s'. insert_classifier (=) 3 None example_population = (Inr (), s') \<and>
         macro_count s' = 2 \<and> num_micros s' = 5 \<and>
         operation_recorder s' ''absorption'' = 2) \<and>
   \<not> (\<exists>m\<in>set (members example_population).
      rule (store example_population m) = rule (store example_population 1)) \<and>
   insert_classifier (=) 1 None example_population = add 1 None example_population \<and>
   macro_count (snd (add 1 None example_population)) = 3 \<and>
   num_micros (snd (add 1 None example_population)) = 5"
proof -
  have a: "\<exists>m\<in>set (members example_population).
      rule (store example_population m) = rule (store example_population 3)"
    by (simp add: example_population_def example_store_def)
  have b: "numerosity (store example_population 3) \<ge> 1"
    by (simp add: example_population_def example_store_def)
  have c: "\<not> (\<exists>m\<in>set (members example_population).
      rule (store example_population m) = rule (store example_population 1))"
    by (simp add: example_population_def example_store_def)
  from insert_absorbs_or_adds [of example_population "(=)" 3 None]
       insert_absorbs_or_adds [of example_population "(=)" 1 None] a b c
  show ?thesis
    by (auto simp: example_population_def example_store_def macro_count_def new_recorder_def)
qed

text \<open>
  C10: when the members are \<open>pre @ m # post\<close>, no member in \<open>pre\<close> has a rule equal to
  the rule of \<open>c\<close> and \<open>m\<close> has one (members in \<open>post\<close> may have one too), \<^verbatim>\<open>insert(c)\<close>
  returns normally, the numerosity of \<open>m\<close> grows by the numerosity of \<open>c\<close>, every other
  classifier object is as before, and the member list is unchanged.
\<close>

theorem insert_absorbs_into_first:
  assumes split: "members s = pre @ m # post"
    and pre: "\<forall>x\<in>set pre. \<not> rule_eq (rule (store s x)) (rule (store s c))"
    and hit: "rule_eq (rule (store s m)) (rule (store s c))"
    and pos: "numerosity (store s c) \<ge> 1"
  shows "\<exists>s'. insert_classifier rule_eq c l s = (Inr (), s') \<and>
           store s' = (store s)(m := (store s m)\<lparr>numerosity :=
                          numerosity (store s m) + numerosity (store s c)\<rparr>) \<and>
           members s' = members s"
  using try_to_absorb_loop_first[where rule_eq=rule_eq and s=s and c=c and m=m and pre=pre and post=post] pre hit split
  by (simp add: insert_classifier_def try_to_absorb_def absorb_ok[OF pos])

theorem insert_absorbs_into_first_witness:
  "members crowded_population = [0] @ 1 # [4, 2] \<and>
   rule (store crowded_population 0) \<noteq> rule (store crowded_population 7) \<and>
   rule (store crowded_population 1) = rule (store crowded_population 7) \<and>
   rule (store crowded_population 4) = rule (store crowded_population 7) \<and>
   numerosity (store crowded_population 7) \<ge> 1 \<and>
   (\<exists>s'. insert_classifier (=) 7 None crowded_population = (Inr (), s') \<and>
         numerosity (store s' 1) = 4 \<and> numerosity (store s' 4) = 2 \<and>
         members s' = [0, 1, 4, 2])"
proof -
  have a: "members crowded_population = [0] @ 1 # [4, 2]"
    by (simp add: crowded_population_def)
  have b: "\<forall>x\<in>set [0]. \<not> rule (store crowded_population x) = rule (store crowded_population 7)"
    by (simp add: crowded_population_def example_store_def)
  have c: "rule (store crowded_population 1) = rule (store crowded_population 7)"
    by (simp add: crowded_population_def example_store_def)
  have d: "numerosity (store crowded_population 7) \<ge> 1"
    by (simp add: crowded_population_def example_store_def)
  from insert_absorbs_into_first [where rule_eq = "(=)", OF a b c d, of None] a b c d
  show ?thesis
    by (auto simp: crowded_population_def example_store_def)
qed

section \<open>Replacing a classifier\<close>

text \<open>
  C4: in a population that satisfies the invariants of the data model, \<^verbatim>\<open>replace(a, b)\<close>
  for two members returns normally and leaves \<open>num_micros\<close> unchanged; \<open>a\<close> is no longer
  a member, the numerosity of \<open>b\<close> has grown by the numerosity that \<open>a\<close> had before the
  call, and no object other than \<open>b\<close> has changed.
\<close>

theorem replace_transfers_numerosity:
  assumes inv: "population_invariant s"
    and ma: "a \<in> set (members s)" and mb: "b \<in> set (members s)"
  shows "\<exists>s'. replace a b l s = (Inr (), s') \<and>
           num_micros s' = num_micros s \<and>
           a \<notin> set (members s') \<and>
           members s' = remove1 a (members s) \<and>
           numerosity (store s' b) = numerosity (store s b) + numerosity (store s a) \<and>
           (\<forall>d. d \<noteq> b \<longrightarrow> store s' d = store s d)"
proof -
  from inv have d: "distinct (members s)"
    and pos: "list_all (\<lambda>c. numerosity (store s c) \<ge> 1) (members s)"
    and nm: "num_micros s = sum_list (map (\<lambda>c. numerosity (store s c)) (members s))"
    by (simp_all add: population_invariant_def sum_numerosity_def)
  from member_le_sum[OF ma pos] nm have le: "numerosity (store s a) \<le> num_micros s" by simp
  from pos ma have a1: "numerosity (store s a) \<ge> 1" by (simp add: list_all_iff)
  from ma mb le a1 d show ?thesis
    by (cases l) (auto simp: replace_def atomic_defs Let_def)
qed

theorem replace_transfers_numerosity_witness:
  "population_invariant example_population \<and>
   0 \<in> set (members example_population) \<and> 2 \<in> set (members example_population) \<and>
   (\<exists>s'. replace 0 2 None example_population = (Inr (), s') \<and> num_micros s' = 3 \<and>
         members s' = [2] \<and> numerosity (store s' 2) = 3)"
proof -
  have inv: "population_invariant example_population" by (simp add: example_defs)
  have a: "0 \<in> set (members example_population)" by (simp add: example_defs)
  have b: "2 \<in> set (members example_population)" by (simp add: example_defs)
  from replace_transfers_numerosity [OF inv a b, of None] inv a b show ?thesis
    by (auto simp: example_population_def example_store_def)
qed

section \<open>The cached number of micro-classifiers\<close>

lemma inv_parts:
  "population_invariant s \<Longrightarrow> distinct (members s)"
  "population_invariant s \<Longrightarrow> c \<in> set (members s) \<Longrightarrow> numerosity (store s c) \<ge> 1"
  "population_invariant s \<Longrightarrow> c \<in> set (members s) \<Longrightarrow> numerosity (store s c) \<le> num_micros s"
  using member_le_sum[of c "members s" "\<lambda>c. numerosity (store s c)"]
  by (simp_all add: population_invariant_def sum_numerosity_def list_all_iff)

lemma atomic_add_new_inv:
  assumes "population_invariant s" "c \<notin> set (members s)" "numerosity (store s c) \<ge> 1"
  shows "\<exists>s'. atomic_add_new c l s = (Inr (), s') \<and> population_invariant s'"
  using assms
  by (cases l) (auto simp: atomic_defs population_invariant_def sum_numerosity_def)

lemma atomic_copy_existing_inv:
  assumes inv: "population_invariant s" and mem: "c \<in> set (members s)" and n: "n \<ge> 1"
  shows "\<exists>s'. atomic_copy_existing c n l s = (Inr (), s') \<and> population_invariant s'"
  using inv mem n inv_parts(1)[OF inv]
    sum_numerosity_change_one[OF mem inv_parts(1)[OF inv],
      of "store s c\<lparr>numerosity := numerosity (store s c) + n\<rparr>"]
  by (cases l)
     (auto simp: atomic_defs population_invariant_def sum_numerosity_def list_all_iff)

lemma atomic_remove_whole_inv:
  assumes inv: "population_invariant s" and mem: "c \<in> set (members s)"
  shows "\<exists>s'. atomic_remove_whole c l s = (Inr (), s') \<and> population_invariant s' \<and>
           members s' = remove1 c (members s) \<and> store s' = store s"
  using inv mem inv_parts(3)[OF inv mem]
    sum_list_map_remove1[OF mem, of "\<lambda>c. numerosity (store s c)"]
  by (cases l)
     (auto simp: atomic_defs population_invariant_def sum_numerosity_def list_all_iff)

lemma atomic_remove_single_copy_inv:
  assumes inv: "population_invariant s" and mem: "c \<in> set (members s)"
  shows "\<exists>s'. atomic_remove_single_copy c l s = (Inr (), s') \<and> population_invariant s'"
proof (cases "numerosity (store s c) > 1")
  case True
  with inv mem inv_parts(3)[OF inv mem] show ?thesis
    using sum_numerosity_change_one[OF mem inv_parts(1)[OF inv],
        of "store s c\<lparr>numerosity := numerosity (store s c) - 1\<rparr>"]
    by (cases l)
       (auto simp: atomic_defs population_invariant_def sum_numerosity_def list_all_iff)
next
  case False
  with inv_parts(2)[OF inv mem] have e: "numerosity (store s c) = 1" by simp
  with inv mem inv_parts(3)[OF inv mem] show ?thesis
    using sum_list_map_remove1[OF mem, of "\<lambda>c. numerosity (store s c)"]
    by (cases l)
       (auto simp: atomic_defs population_invariant_def sum_numerosity_def list_all_iff)
qed

lemma try_to_absorb_loop_cases:
  "try_to_absorb_loop rule_eq xs c s = (Inr False, s) \<or>
   (\<exists>m\<in>set xs. try_to_absorb_loop rule_eq xs c s =
      (case absorb c m s of (Inl e, s') \<Rightarrow> (Inl e, s') | (Inr _, s') \<Rightarrow> (Inr True, s')))"
  by (induction xs) auto

lemma insert_classifier_inv:
  assumes inv: "population_invariant s" and new: "c \<notin> set (members s)"
    and pos: "numerosity (store s c) \<ge> 1"
  shows "\<exists>s'. insert_classifier rule_eq c l s = (Inr (), s') \<and> population_invariant s'"
proof -
  from try_to_absorb_loop_cases[of rule_eq "members s" c s]
  consider "try_to_absorb rule_eq c s = (Inr False, s)"
    | m where "m \<in> set (members s)"
        "try_to_absorb rule_eq c s =
           (case absorb c m s of (Inl e, s') \<Rightarrow> (Inl e, s') | (Inr _, s') \<Rightarrow> (Inr True, s'))"
    unfolding try_to_absorb_def by blast
  then show ?thesis
  proof cases
    case 1
    with atomic_add_new_inv[OF inv new pos, of l] show ?thesis
      by (simp add: insert_classifier_def)
  next
    case 2
    from atomic_copy_existing_inv[OF inv 2(1) pos, of "Some ''absorption''"]
    obtain s' where "absorb c m s = (Inr (), s')" "population_invariant s'"
      by (auto simp: absorb_def)
    with 2(2) show ?thesis by (simp add: insert_classifier_def)
  qed
qed

lemma replace_inv:
  assumes inv: "population_invariant s" and ma: "a \<in> set (members s)"
    and mb: "b \<in> set (members s)" and ne: "a \<noteq> b"
  shows "\<exists>s'. replace a b l s = (Inr (), s') \<and> population_invariant s'"
proof -
  from atomic_remove_whole_inv[OF inv ma, of None] obtain s1 where
    r: "atomic_remove_whole a None s = (Inr (), s1)" and i1: "population_invariant s1"
    and m1: "members s1 = remove1 a (members s)" and st: "store s1 = store s"
    by blast
  from mb ne m1 have mb1: "b \<in> set (members s1)" by simp
  from atomic_copy_existing_inv[OF i1 mb1 inv_parts(2)[OF inv ma], of l]
  obtain s2 where "atomic_copy_existing b (numerosity (store s a)) l s1 = (Inr (), s2)"
    and "population_invariant s2" by blast
  with r ma mb show ?thesis
    by (simp add: replace_def verify_membership_def contains_def and_then_def Let_def)
qed

lemma apply_op_inv:
  assumes "population_invariant s" "strict_precondition x s"
  shows "\<exists>s'. apply_op rule_eq x s = (Inr (), s') \<and> population_invariant s'"
proof (cases x)
  case (Add c l)
  with assms atomic_add_new_inv[of s c l] show ?thesis by (simp add: add_def contains_def)
next
  case (Insert c l)
  with assms insert_classifier_inv[of s c rule_eq l] show ?thesis by (simp add: contains_def)
next
  case (Duplicate c n l)
  with assms atomic_copy_existing_inv[of s c n l] show ?thesis
    by (simp add: duplicate_def verify_membership_def contains_def)
next
  case (Replace a b l)
  with assms replace_inv[of s a b l] show ?thesis by (simp add: contains_def)
next
  case (Delete c)
  with assms atomic_remove_single_copy_inv[of s c "Some ''deletion''"] show ?thesis
    by (simp add: delete_def verify_membership_def contains_def)
next
  case (Remove c l)
  with assms atomic_remove_whole_inv[of s c l] show ?thesis
    by (auto simp: remove_def verify_membership_def contains_def)
qed

lemma run_ops_inv:
  "population_invariant s \<Longrightarrow> preconditions_hold strict_precondition rule_eq ops s \<Longrightarrow>
   fst (run_ops rule_eq ops s) = Inr () \<and> population_invariant (snd (run_ops rule_eq ops s))"
proof (induction ops arbitrary: s)
  case Nil then show ?case by simp
next
  case (Cons x xs)
  from Cons.prems have p: "strict_precondition x s" by simp
  from apply_op_inv[OF Cons.prems(1) p, of rule_eq] obtain s' where
    a: "apply_op rule_eq x s = (Inr (), s')" and i: "population_invariant s'" by blast
  from Cons.prems a have "preconditions_hold strict_precondition rule_eq xs s'" by simp
  from Cons.IH[OF i this] a show ?case by simp
qed

lemma preconditions_hold_take:
  "preconditions_hold pre rule_eq ops s \<Longrightarrow> preconditions_hold pre rule_eq (take k ops) s"
proof (induction ops arbitrary: k s)
  case Nil then show ?case by simp
next
  case (Cons x xs)
  then show ?case by (cases k) auto
qed

lemma Population_init_inv:
  "Population_init v st = Inr s \<Longrightarrow> population_invariant s"
  by (auto simp: Population_init_def population_invariant_def sum_numerosity_def
        split: sum.splits)

text \<open>
  C1, as stated, fails: after \<^verbatim>\<open>add(c)\<close> for an object of numerosity 2, the call
  \<^verbatim>\<open>replace(c, c)\<close> has both arguments in the population, so the stated preconditions
  hold. It removes \<open>c\<close>, then counts the two removed copies again on \<open>c\<close> itself: the
  population is empty and \<open>num_micros\<close> is 2.
\<close>

theorem replace_with_itself_breaks_sum:
  "Population_init (PyInt 5) example_store = Inr fresh_example \<and>
   preconditions_hold stated_precondition (=) [Add 1 None, Replace 1 1 None] fresh_example \<and>
   fst (run_ops (=) [Add 1 None, Replace 1 1 None] fresh_example) = Inr () \<and>
   members (snd (run_ops (=) [Add 1 None, Replace 1 1 None] fresh_example)) = [] \<and>
   num_micros (snd (run_ops (=) [Add 1 None, Replace 1 1 None] fresh_example)) = 2 \<and>
   sum_numerosity (snd (run_ops (=) [Add 1 None, Replace 1 1 None] fresh_example)) = 0"
  by (simp add: Population_init_def validate_and_return_max_micros_def fresh_example_def
        add_def replace_def atomic_defs example_store_def sum_numerosity_def Let_def)


text \<open>
  C1, amended: start from a freshly constructed population and run any sequence of
  \<^verbatim>\<open>add\<close>, \<^verbatim>\<open>insert\<close>, \<^verbatim>\<open>duplicate\<close>, \<^verbatim>\<open>replace\<close>, \<^verbatim>\<open>delete\<close>, \<^verbatim>\<open>remove\<close> in which every
  call satisfies the stated preconditions and, in addition, an object given to \<^verbatim>\<open>add\<close>
  or \<^verbatim>\<open>insert\<close> is not yet a member and has numerosity at least 1, and \<^verbatim>\<open>replace\<close> is
  given two different objects. Then after any number \<open>k\<close> of the calls none has raised
  and \<open>num_micros\<close> is the sum of the numerosities of the current members.
\<close>

theorem num_micros_is_sum_of_numerosity:
  assumes init: "Population_init v st = Inr s0"
    and pre: "preconditions_hold strict_precondition rule_eq ops s0"
  shows "fst (run_ops rule_eq (take k ops) s0) = Inr () \<and>
         num_micros (snd (run_ops rule_eq (take k ops) s0))
           = sum_numerosity (snd (run_ops rule_eq (take k ops) s0))"
  using run_ops_inv[OF Population_init_inv[OF init] preconditions_hold_take[OF pre, of k]]
  by (simp add: population_invariant_def)

theorem num_micros_is_sum_of_numerosity_witness:
  "Population_init (PyInt 5) example_store = Inr fresh_example \<and>
   preconditions_hold strict_precondition (=)
     [Add 1 None, Insert 4 (Some ''covering''), Duplicate 1 2 None, Add 2 None,
      Replace 2 1 None, Delete 1, Remove 1 None] fresh_example \<and>
   fst (run_ops (=) (take 6
     [Add 1 None, Insert 4 (Some ''covering''), Duplicate 1 2 None, Add 2 None,
      Replace 2 1 None, Delete 1, Remove 1 None]) fresh_example) = Inr () \<and>
   num_micros (snd (run_ops (=) (take 6
     [Add 1 None, Insert 4 (Some ''covering''), Duplicate 1 2 None, Add 2 None,
      Replace 2 1 None, Delete 1, Remove 1 None]) fresh_example)) =
   sum_numerosity (snd (run_ops (=) (take 6
     [Add 1 None, Insert 4 (Some ''covering''), Duplicate 1 2 None, Add 2 None,
      Replace 2 1 None, Delete 1, Remove 1 None]) fresh_example))"
proof -
  have a: "Population_init (PyInt 5) example_store = Inr fresh_example"
    by (simp add: Population_init_def validate_and_return_max_micros_def fresh_example_def)
  have b: "preconditions_hold strict_precondition (=)
     [Add 1 None, Insert 4 (Some ''covering''), Duplicate 1 2 None, Add 2 None,
      Replace 2 1 None, Delete 1, Remove 1 None] fresh_example"
    by (simp add: fresh_example_def example_store_def add_def insert_classifier_def
          try_to_absorb_def absorb_def duplicate_def replace_def delete_def remove_def
          atomic_defs Let_def)
  from num_micros_is_sum_of_numerosity [OF a b, of 6] a b show ?thesis by simp
qed

section \<open>The deletion vote\<close>




section \<open>Roulette-wheel selection\<close>

lemma calc_votes_length:
  "calc_votes hp mean cs = Inr vs \<Longrightarrow> length vs = length cs"
  by (induction cs arbitrary: vs) (auto split: sum.splits)

lemma roulette_scan_finds:
  "length ms = length vs \<Longrightarrow> acc \<le> cp \<Longrightarrow> acc + sum_list vs > cp \<Longrightarrow>
   \<exists>i<length ms. roulette_scan cp acc (zip ms vs) = Some (ms ! i) \<and>
       acc + sum_list (take (Suc i) vs) > cp \<and>
       (\<forall>j<i. acc + sum_list (take (Suc j) vs) \<le> cp)"
proof (induction ms arbitrary: vs acc)
  case Nil
  then show ?case by simp
next
  case (Cons m ms)
  then obtain v vs' where vs: "vs = v # vs'" by (cases vs) auto
  show ?case
  proof (cases "acc + v > cp")
    case True
    with vs show ?thesis by (intro exI[of _ 0]) simp
  next
    case False
    from Cons.prems vs False
    have "length ms = length vs'" "acc + v \<le> cp" "(acc + v) + sum_list vs' > cp"
      by (simp_all add: add.assoc)
    from Cons.IH[OF this] obtain i where i: "i < length ms"
      "roulette_scan cp (acc + v) (zip ms vs') = Some (ms ! i)"
      "acc + v + sum_list (take (Suc i) vs') > cp"
      "\<forall>j<i. acc + v + sum_list (take (Suc j) vs') \<le> cp" by blast
    have "\<forall>j<Suc i. acc + sum_list (take (Suc j) vs) \<le> cp"
    proof (intro allI impI)
      fix j assume "j < Suc i"
      then show "acc + sum_list (take (Suc j) vs) \<le> cp"
        using False i(4) vs by (cases j) (auto simp: add.assoc)
    qed
    with i False vs show ?thesis
      by (intro exI[of _ "Suc i"]) (simp add: Let_def add.assoc)
  qed
qed





section \<open>Capacity enforcement\<close>

lemma delete_member_counts:
  assumes mem: "c \<in> set (members s)" and pos: "num_micros s \<ge> 1"
  shows "\<exists>s'. delete c s = (Inr (), s') \<and> num_micros s' = num_micros s - 1 \<and>
           max_micros s' = max_micros s \<and>
           operation_recorder s' ''deletion'' = operation_recorder s ''deletion'' + 1"
  using mem pos by (auto simp: delete_def atomic_defs)

lemma deletion_rounds_count:
  "selections_are_members sel n g s \<Longrightarrow> int n \<le> num_micros s \<Longrightarrow>
   \<exists>s' g'. deletion_rounds sel n g s = ((Inr (), s'), g') \<and>
      num_micros s' = num_micros s - int n \<and> max_micros s' = max_micros s \<and>
      operation_recorder s' ''deletion'' = operation_recorder s ''deletion'' + int n"
proof (induction n arbitrary: g s)
  case 0
  then show ?case by simp
next
  case (Suc n)
  from Suc.prems(1) obtain c g1 where sel: "sel g s = (Inr (Some c), g1)"
    and mem: "c \<in> set (members s)"
    and rest: "selections_are_members sel n g1 (snd (delete c s))"
    by (auto split: prod.splits sum.splits option.splits)
  from Suc.prems(2) have "num_micros s \<ge> 1" by simp
  from delete_member_counts[OF mem this] obtain s1 where
    d: "delete c s = (Inr (), s1)" and n1: "num_micros s1 = num_micros s - 1"
    and m1: "max_micros s1 = max_micros s"
    and r1: "operation_recorder s1 ''deletion'' = operation_recorder s ''deletion'' + 1"
    by blast
  from rest d have rest1: "selections_are_members sel n g1 s1" by simp
  from Suc.prems(2) n1 have "int n \<le> num_micros s1" by simp
  from Suc.IH[OF rest1 this] obtain s' g' where
    "deletion_rounds sel n g1 s1 = ((Inr (), s'), g')"
    "num_micros s' = num_micros s1 - int n" "max_micros s' = max_micros s1"
    "operation_recorder s' ''deletion'' = operation_recorder s1 ''deletion'' + int n"
    by blast
  with sel d n1 m1 r1 show ?case
    by (simp add: delete_selected_def)
qed

text \<open>
  C2, as stated, fails: on \<open>zero_vote_population\<close>, which holds two micro-classifiers
  and has capacity 1, the roulette-wheel policy selects nothing in its first round, and
  the call of \<^verbatim>\<open>delete\<close> raises \<^verbatim>\<open>MemberNotFoundError\<close> with the population unchanged.
\<close>

theorem deletion_raises_on_zero_votes:
  "num_micros zero_vote_population > max_micros zero_vote_population \<and>
   deletion_strategy_call (roulette_wheel mean_fitness example_hyperparams (\<lambda>_. 1/2)) 0
       zero_vote_population
     = ((Inl MemberNotFoundError, zero_vote_population), 1)"
  by (simp add: zero_vote_population_def zero_vote_store_def example_hyperparams_def
        deletion_strategy_call_def perform_deletions_def roulette_wheel_def
        select_for_deletion_def mean_fitness_def calc_deletion_vote_def delete_selected_def
        Let_def)

text \<open>
  C2, amended: for a population with \<open>num_micros > max_micros\<close> (and a capacity that is
  not negative), if in each of the \<open>num_micros - max_micros\<close> rounds the strategy selects
  a classifier that is a member at that time, the call returns normally with
  \<open>num_micros = max_micros\<close>, the capacity unchanged, and exactly
  \<open>num_micros - max_micros\<close> single-copy deletions recorded under "deletion". For a
  population with \<open>num_micros \<le> max_micros\<close> the call returns the population, and the
  state of the strategy, unchanged, whatever the strategy is.
\<close>

theorem deletion_restores_capacity:
  "(num_micros s > max_micros s \<longrightarrow> max_micros s \<ge> 0 \<longrightarrow>
      selections_are_members sel (nat (num_micros s - max_micros s)) g s \<longrightarrow>
      (\<exists>s' g'. deletion_strategy_call sel g s = ((Inr (), s'), g') \<and>
          num_micros s' = max_micros s \<and> max_micros s' = max_micros s \<and>
          operation_recorder s' ''deletion'' =
            operation_recorder s ''deletion'' + (num_micros s - max_micros s))) \<and>
   (num_micros s \<le> max_micros s \<longrightarrow> deletion_strategy_call sel g s = ((Inr (), s), g))"
proof (intro conjI impI)
  assume over: "num_micros s > max_micros s" and cap: "max_micros s \<ge> 0"
    and sel: "selections_are_members sel (nat (num_micros s - max_micros s)) g s"
  from over cap have "int (nat (num_micros s - max_micros s)) \<le> num_micros s" by simp
  from deletion_rounds_count[OF sel this] over obtain s' g' where
    r: "deletion_rounds sel (nat (num_micros s - max_micros s)) g s = ((Inr (), s'), g')"
    and n: "num_micros s' = max_micros s" and m: "max_micros s' = max_micros s"
    and l: "operation_recorder s' ''deletion'' =
            operation_recorder s ''deletion'' + (num_micros s - max_micros s)"
    by auto
  from over r n m have "deletion_strategy_call sel g s = ((Inr (), s'), g')"
    by (simp add: deletion_strategy_call_def perform_deletions_def Let_def)
  with n m l show "\<exists>s' g'. deletion_strategy_call sel g s = ((Inr (), s'), g') \<and>
          num_micros s' = max_micros s \<and> max_micros s' = max_micros s \<and>
          operation_recorder s' ''deletion'' =
            operation_recorder s ''deletion'' + (num_micros s - max_micros s)"
    by blast
next
  assume "num_micros s \<le> max_micros s"
  then show "deletion_strategy_call sel g s = ((Inr (), s), g)"
    by (simp add: deletion_strategy_call_def)
qed

theorem deletion_restores_capacity_witness:
  "num_micros crowded_population > max_micros crowded_population \<and>
   max_micros crowded_population \<ge> 0 \<and>
   selections_are_members (roulette_wheel mean_fitness example_hyperparams (\<lambda>_. 1/2))
     (nat (num_micros crowded_population - max_micros crowded_population)) 0
     crowded_population \<and>
   (\<exists>s' g'. deletion_strategy_call (roulette_wheel mean_fitness example_hyperparams (\<lambda>_. 1/2))
        0 crowded_population = ((Inr (), s'), g') \<and> num_micros s' = 5 \<and>
        operation_recorder s' ''deletion'' = 2) \<and>
   deletion_strategy_call (roulette_wheel mean_fitness example_hyperparams (\<lambda>_. 1/2))
        0 example_population = ((Inr (), example_population), 0)"
proof -
  have a: "num_micros crowded_population > max_micros crowded_population"
    by (simp add: crowded_population_def)
  have b: "max_micros crowded_population \<ge> 0" by (simp add: crowded_population_def)
  have n: "nat (num_micros crowded_population - max_micros crowded_population) = Suc (Suc 0)"
    by (simp add: crowded_population_def)
  have c: "selections_are_members (roulette_wheel mean_fitness example_hyperparams (\<lambda>_. 1/2))
     (nat (num_micros crowded_population - max_micros crowded_population)) 0
     crowded_population"
    unfolding n
    by (simp add: crowded_population_def example_store_def example_hyperparams_def
        roulette_wheel_def select_for_deletion_def mean_fitness_def calc_deletion_vote_def
        delete_def atomic_defs Let_def)
  have d: "num_micros example_population \<le> max_micros example_population"
    by (simp add: example_population_def)
  from deletion_restores_capacity [of crowded_population "roulette_wheel mean_fitness example_hyperparams (\<lambda>_. 1/2)" 0]
       deletion_restores_capacity [of example_population "roulette_wheel mean_fitness example_hyperparams (\<lambda>_. 1/2)" 0]
       a b c d
  show ?thesis
    by (auto simp: crowded_population_def new_recorder_def)
qed

section \<open>The roulette wheel on populations with positive votes\<close>

text \<open>
  The hypothesis of the capacity theorem can be discharged for the roulette wheel once
  and for all: when every member has a positive action set size and a positive fitness,
  the tolerance factor is not negative, every draw is in \<open>[0, 1)\<close> and the mean fitness
  of a non-empty population is computed, every vote is positive, so every round selects
  a member.
\<close>

lemma vote_positive:
  assumes v: "votable c" and d: "delta hp \<ge> 0"
  shows "\<exists>v. calc_deletion_vote hp c mean = Inr v \<and> v > 0"
proof -
  define ratio where "ratio = fitness c / of_int (numerosity c)"
  define base where "base = action_set_size c * of_int (numerosity c)"
  from v have n: "numerosity c \<noteq> 0" and rpos: "ratio > 0" and bpos: "base > 0"
    and f: "fitness c \<noteq> 0"
    by (simp_all add: votable_def ratio_def base_def)
  show ?thesis
  proof (cases "experience c > theta_del hp \<and> ratio < delta hp * mean")
    case True
    with rpos have "0 < delta hp * mean" by simp
    with d have "mean > 0" by (simp add: zero_less_mult_iff)
    with rpos bpos have "base * (mean / ratio) > 0" by simp
    moreover from True n f
    have "calc_deletion_vote hp c mean = Inr (base * (mean / ratio))"
      by (simp add: calc_deletion_vote_def Let_def ratio_def base_def)
    ultimately show ?thesis by simp
  next
    case False
    with n have "calc_deletion_vote hp c mean = Inr base"
      by (auto simp: calc_deletion_vote_def Let_def ratio_def base_def)
    with bpos show ?thesis by simp
  qed
qed

lemma calc_votes_positive:
  "list_all votable cs \<Longrightarrow> delta hp \<ge> 0 \<Longrightarrow>
   \<exists>vs. calc_votes hp mean cs = Inr vs \<and> list_all (\<lambda>v. v > 0) vs"
proof (induction cs)
  case Nil then show ?case by simp
next
  case (Cons c cs)
  from Cons.prems vote_positive[of c hp mean] obtain v where
    "calc_deletion_vote hp c mean = Inr v" "v > 0" by auto
  moreover from Cons obtain vs where "calc_votes hp mean cs = Inr vs" "list_all (\<lambda>v. v > 0) vs"
    by auto
  ultimately show ?case by simp
qed

lemma positive_sum:
  "list_all (\<lambda>v. v > (0::real)) vs \<Longrightarrow> vs \<noteq> [] \<Longrightarrow> sum_list vs > 0"
proof (induction vs)
  case Nil then show ?case by simp
next
  case (Cons v vs)
  then show ?case by (cases vs) (auto intro: add_pos_pos)
qed

lemma delete_keeps_votable:
  assumes all: "list_all (\<lambda>c. votable (store s c)) (members s)"
    and del: "delete c s = (Inr (), s')"
  shows "list_all (\<lambda>c. votable (store s' c)) (members s')"
proof (cases "c \<in> set (members s) \<and> num_micros s \<ge> 1")
  case False
  with del show ?thesis by (auto simp: delete_def atomic_defs Let_def split: if_splits)
next
  case True
  show ?thesis
  proof (cases "numerosity (store s c) > 1")
    case big: True
    with True del have "members s' = members s"
      "store s' = (store s)(c := (store s c)\<lparr>numerosity := numerosity (store s c) - 1\<rparr>)"
      by (auto simp: delete_def atomic_defs Let_def)
    with all big show ?thesis by (auto simp: list_all_iff votable_def)
  next
    case small: False
    with True del have "members s' = remove1 c (members s)" "store s' = store s"
      by (auto simp: delete_def atomic_defs Let_def)
    with all show ?thesis by (auto simp: list_all_iff dest: notin_set_remove1)
  qed
qed

lemma roulette_selections_are_members:
  assumes d: "delta hp \<ge> 0" and rng: "\<And>k. 0 \<le> rng k \<and> rng k < 1"
    and stat: "\<And>cs. cs \<noteq> [] \<Longrightarrow> \<exists>m. stat cs = Inr m"
  shows "population_invariant s \<Longrightarrow> list_all (\<lambda>c. votable (store s c)) (members s) \<Longrightarrow>
         int n \<le> num_micros s \<Longrightarrow>
         selections_are_members (roulette_wheel stat hp rng) n k s"
proof (induction n arbitrary: k s)
  case 0
  then show ?case by simp
next
  case (Suc n)
  from Suc.prems(1,3) have ne: "members s \<noteq> []"
    by (auto simp: population_invariant_def sum_numerosity_def)
  then obtain mean where m: "stat (map (store s) (members s)) = Inr mean"
    using stat[of "map (store s) (members s)"] by auto
  from Suc.prems(2) have "list_all votable (map (store s) (members s))"
    by (simp add: list_all_iff)
  from calc_votes_positive[OF this d, of mean] obtain votes where
    v: "calc_votes hp mean (map (store s) (members s)) = Inr votes"
    and vp: "list_all (\<lambda>v. v > 0) votes" by blast
  from calc_votes_length[OF v] have len: "length (members s) = length votes" by simp
  with ne have "votes \<noteq> []" by auto
  from positive_sum[OF vp this] have total: "sum_list votes > 0" .
  from total rng[of k] have cp: "0 \<le> rng k * sum_list votes"
    "0 + sum_list votes > rng k * sum_list votes" by simp_all
  from roulette_scan_finds[OF len cp] obtain i where i: "i < length (members s)"
    and sc: "roulette_scan (rng k * sum_list votes) 0 (zip (members s) votes)
               = Some (members s ! i)"
    by blast
  let ?c = "members s ! i"
  from sc m v have sel: "select_for_deletion stat hp (rng k) s = Inr (Some ?c)"
    by (simp add: select_for_deletion_def Let_def)
  from i have mem: "?c \<in> set (members s)" by simp
  from atomic_remove_single_copy_inv[OF Suc.prems(1) mem, of "Some ''deletion''"] mem
  obtain s' where del: "delete ?c s = (Inr (), s')" and inv': "population_invariant s'"
    by (auto simp: delete_def verify_membership_def contains_def)
  from Suc.prems(3) have "num_micros s \<ge> 1" by simp
  from delete_member_counts[OF mem this] del have "num_micros s' = num_micros s - 1" by simp
  with Suc.prems(3) have le: "int n \<le> num_micros s'" by simp
  from Suc.IH[OF inv' delete_keeps_votable[OF Suc.prems(2) del] le, of "Suc k"] sel mem del
  show ?case by (simp add: roulette_wheel_def)
qed

end
